theory Spec2Isabelle
  imports Main "HOL-Library.Word"
begin

section \<open>Data model of the feature-flag handler\<close>

text \<open>
  The handler file works on records of the package \<open>featureflagmodel\<close>, whose
  declarations are not part of the handler file. The fields below are the ones the
  handlers read and write; their types follow the handler's use of them.
\<close>

text \<open>\<open>primitive.ObjectID\<close> is a 12-byte array; \<open>primitive.NilObjectID\<close> is its zero value,
  which is also the value of a declared but unassigned \<open>var x primitive.ObjectID\<close>.\<close>

type_synonym ObjectID = "96 word"

definition NilObjectID :: ObjectID where
  "NilObjectID = 0"

text \<open>Modelled from the spec: the declaration of the revision status constants is missing;
  the handlers name \<open>featureflagmodel.Draft\<close>, \<open>featureflagmodel.Live\<close> and
  \<open>featureflagmodel.Archived\<close>, the three statuses of the data model.\<close>

datatype RevisionStatus = Draft | Live | Archived

text \<open>Modelled from the spec: the declaration of \<open>featureflagmodel.Revision\<close> is missing.
  \<open>ID\<close>, \<open>Status\<close> and \<open>LastRevisionID\<close> are the fields the handlers use; creator, default
  value and rules (condition and served value) are carried verbatim.\<close>

record Revision =
  ID :: ObjectID
  UserID :: ObjectID
  Status :: RevisionStatus
  DefaultValue :: string
  Rules :: "(string \<times> string) list"
  LastRevisionID :: ObjectID

text \<open>Modelled from the spec: the declaration of the environment entry is missing. The
  handler ranges over \<open>featureFlagRecord.Environments\<close> by index, so it is a slice.\<close>

record FeatureFlagEnvironment =
  Name :: string
  IsEnabled :: bool

text \<open>Modelled from the spec: the declaration of \<open>featureflagmodel.FeatureFlagRecord\<close> is
  missing. \<open>Version\<close> is the integer counter the handlers change with \<open>++\<close> and \<open>--\<close>:
  a Go \<open>int\<close>, 64 bits wide, read as two's complement with \<open>sint\<close>.\<close>

record FeatureFlagRecord =
  FlagID :: ObjectID
  OrganizationID :: ObjectID
  Version :: "64 word"
  FlagName :: string
  Revisions :: "Revision list"
  Environments :: "FeatureFlagEnvironment list"

text \<open>The error messages of package \<open>api_errors\<close> that the handlers return.\<close>

datatype api_error = BadRequestError | InternalServerError | UnauthorizedError | ForbiddenError

section \<open>ApproveRevision\<close>

text \<open>
  The loop of \<open>ApproveRevision\<close>:
  \<^verbatim>\<open>
  var lastRevisionID primitive.ObjectID
  for index, revision := range featureFlagRecord.Revisions {
      if revision.Status == featureflagmodel.Live {
          featureFlagRecord.Revisions[index].Status = featureflagmodel.Archived
          lastRevisionID = revision.ID
      }
      if revision.ID == revisionID && revision.Status == featureflagmodel.Draft {
          featureFlagRecord.Revisions[index].Status = featureflagmodel.Live
          featureFlagRecord.Revisions[index].LastRevisionID = lastRevisionID
      }
  }
  \<close>
  \<open>revision\<close> is the copy of the element taken when the iteration starts, so both tests
  read the status the element had before this iteration; the writes go to the slice.
  The loop variable \<open>lastRevisionID\<close> is the accumulator of the recursion.
\<close>

fun approve_loop :: "ObjectID \<Rightarrow> ObjectID \<Rightarrow> Revision list \<Rightarrow> Revision list" where
  "approve_loop revisionID lastRevisionID [] = []"
| "approve_loop revisionID lastRevisionID (revision # rest) =
     (let element = (if Status revision = Live
                     then revision\<lparr>Status := Archived\<rparr> else revision);
          lastRevisionID' = (if Status revision = Live
                             then ID revision else lastRevisionID);
          element' = (if ID revision = revisionID \<and> Status revision = Draft
                      then element\<lparr>Status := Live, LastRevisionID := lastRevisionID'\<rparr>
                      else element)
      in element' # approve_loop revisionID lastRevisionID' rest)"

text \<open>The in-memory transformation: the loop, then \<open>featureFlagRecord.Version++\<close>.\<close>

definition approve :: "ObjectID \<Rightarrow> FeatureFlagRecord \<Rightarrow> FeatureFlagRecord" where
  "approve revisionID featureFlagRecord =
     featureFlagRecord
       \<lparr>Revisions := approve_loop revisionID NilObjectID (Revisions featureFlagRecord),
        Version := Version featureFlagRecord + 1\<rparr>"

text \<open>
  The handler from the loaded record on. \<open>updateErr\<close> and \<open>timelineErr\<close> say whether
  \<open>model.UpdateOne\<close> and \<open>timelineModel.UpdateOne\<close> return an error; each error ends the
  request with \<open>InternalServerError\<close>, otherwise the transformed record is the response.
\<close>

definition ApproveRevision ::
  "bool \<Rightarrow> bool \<Rightarrow> ObjectID \<Rightarrow> FeatureFlagRecord \<Rightarrow> api_error + FeatureFlagRecord" where
  "ApproveRevision updateErr timelineErr revisionID featureFlagRecord =
     (let featureFlagRecord' = approve revisionID featureFlagRecord
      in if updateErr then Inl InternalServerError
         else if timelineErr then Inl InternalServerError
         else Inr featureFlagRecord')"

section \<open>RollbackFeatureFlagVersion\<close>

text \<open>
  The first loop:
  \<^verbatim>\<open>
  var newRevisionID primitive.ObjectID
  for index, revision := range featureFlagRecord.Revisions {
      if revision.Status == featureflagmodel.Live {
          featureFlagRecord.Revisions[index].Status = featureflagmodel.Draft
          newRevisionID = revision.LastRevisionID
          featureFlagRecord.Revisions[index].LastRevisionID = primitive.NilObjectID
      }
  }
  \<close>
  It returns the slice and the final value of \<open>newRevisionID\<close>.
\<close>

fun rollback_live_loop :: "ObjectID \<Rightarrow> Revision list \<Rightarrow> Revision list \<times> ObjectID" where
  "rollback_live_loop newRevisionID [] = ([], newRevisionID)"
| "rollback_live_loop newRevisionID (revision # rest) =
     (if Status revision = Live
      then (case rollback_live_loop (LastRevisionID revision) rest of
              (rest', newRevisionID') \<Rightarrow>
                (revision\<lparr>Status := Draft, LastRevisionID := NilObjectID\<rparr> # rest',
                 newRevisionID'))
      else (case rollback_live_loop newRevisionID rest of
              (rest', newRevisionID') \<Rightarrow> (revision # rest', newRevisionID')))"

text \<open>
  The second loop:
  \<^verbatim>\<open>
  for index, revision := range featureFlagRecord.Revisions {
      if revision.ID == newRevisionID && revision.Status == featureflagmodel.Archived {
          featureFlagRecord.Revisions[index].Status = featureflagmodel.Live
      }
  }
  \<close>
\<close>

fun rollback_restore_loop :: "ObjectID \<Rightarrow> Revision list \<Rightarrow> Revision list" where
  "rollback_restore_loop newRevisionID [] = []"
| "rollback_restore_loop newRevisionID (revision # rest) =
     (if ID revision = newRevisionID \<and> Status revision = Archived
      then revision\<lparr>Status := Live\<rparr> else revision)
     # rollback_restore_loop newRevisionID rest"

text \<open>The in-memory transformation: both loops, then \<open>featureFlagRecord.Version--\<close>.\<close>

definition rollback :: "FeatureFlagRecord \<Rightarrow> FeatureFlagRecord" where
  "rollback featureFlagRecord =
     (case rollback_live_loop NilObjectID (Revisions featureFlagRecord) of
        (revisions, newRevisionID) \<Rightarrow>
          featureFlagRecord
            \<lparr>Revisions := rollback_restore_loop newRevisionID revisions,
             Version := Version featureFlagRecord - 1\<rparr>)"

definition RollbackFeatureFlagVersion ::
  "bool \<Rightarrow> bool \<Rightarrow> FeatureFlagRecord \<Rightarrow> api_error + FeatureFlagRecord" where
  "RollbackFeatureFlagVersion updateErr timelineErr featureFlagRecord =
     (let featureFlagRecord' = rollback featureFlagRecord
      in if updateErr then Inl InternalServerError
         else if timelineErr then Inl InternalServerError
         else Inr featureFlagRecord')"

section \<open>ToggleFeatureFlag\<close>

text \<open>
  \<^verbatim>\<open>
  for index, environment := range featureFlagRecord.Environments {
      if environment.Name == environmentName {
          featureFlagRecord.Environments[index].IsEnabled =
              !(featureFlagRecord.Environments[index].IsEnabled)
      }
  }
  \<close>
  Go compares strings byte by byte, as HOL compares character lists.
\<close>

fun toggle_loop :: "string \<Rightarrow> FeatureFlagEnvironment list \<Rightarrow> FeatureFlagEnvironment list" where
  "toggle_loop environmentName [] = []"
| "toggle_loop environmentName (environment # rest) =
     (if Name environment = environmentName
      then environment\<lparr>IsEnabled := \<not> IsEnabled environment\<rparr> else environment)
     # toggle_loop environmentName rest"

definition toggle :: "string \<Rightarrow> FeatureFlagRecord \<Rightarrow> FeatureFlagRecord" where
  "toggle environmentName featureFlagRecord =
     featureFlagRecord
       \<lparr>Environments := toggle_loop environmentName (Environments featureFlagRecord)\<rparr>"

definition ToggleFeatureFlag ::
  "bool \<Rightarrow> bool \<Rightarrow> string \<Rightarrow> FeatureFlagRecord \<Rightarrow> api_error + FeatureFlagRecord" where
  "ToggleFeatureFlag updateErr timelineErr environmentName featureFlagRecord =
     (let featureFlagRecord' = toggle environmentName featureFlagRecord
      in if updateErr then Inl InternalServerError
         else if timelineErr then Inl InternalServerError
         else Inr featureFlagRecord')"

section \<open>Sequences of lifecycle operations\<close>

datatype lifecycle_op = Approve ObjectID | Rollback

fun apply_op :: "lifecycle_op \<Rightarrow> FeatureFlagRecord \<Rightarrow> FeatureFlagRecord" where
  "apply_op (Approve revisionID) featureFlagRecord = approve revisionID featureFlagRecord"
| "apply_op Rollback featureFlagRecord = rollback featureFlagRecord"

fun apply_ops :: "lifecycle_op list \<Rightarrow> FeatureFlagRecord \<Rightarrow> FeatureFlagRecord" where
  "apply_ops [] featureFlagRecord = featureFlagRecord"
| "apply_ops (operation # rest) featureFlagRecord =
     apply_ops rest (apply_op operation featureFlagRecord)"

definition live_count :: "Revision list \<Rightarrow> nat" where
  "live_count revisions = length (filter (\<lambda>revision. Status revision = Live) revisions)"

definition distinct_ids :: "Revision list \<Rightarrow> bool" where
  "distinct_ids revisions = distinct (map ID revisions)"

section \<open>Concrete flags\<close>

text \<open>Two drafts were created and the second one approved: the draft precedes the live
  revision in the sequence.\<close>

definition flag_draft_live :: FeatureFlagRecord where
  "flag_draft_live =
     \<lparr>FlagID = 10, OrganizationID = 20, Version = 2, FlagName = ''checkout'',
      Revisions =
        [\<lparr>ID = 1, UserID = 7, Status = Draft, DefaultValue = ''true'', Rules = [],
          LastRevisionID = NilObjectID\<rparr>,
         \<lparr>ID = 2, UserID = 7, Status = Live, DefaultValue = ''false'', Rules = [],
          LastRevisionID = NilObjectID\<rparr>],
      Environments =
        [\<lparr>Name = ''prod'', IsEnabled = False\<rparr>, \<lparr>Name = ''staging'', IsEnabled = True\<rparr>]\<rparr>"

text \<open>Revision 1 was approved, then revision 2, then a third draft was created.\<close>

definition flag_history :: FeatureFlagRecord where
  "flag_history =
     \<lparr>FlagID = 11, OrganizationID = 20, Version = 3, FlagName = ''search'',
      Revisions =
        [\<lparr>ID = 1, UserID = 7, Status = Archived, DefaultValue = ''a'', Rules = [],
          LastRevisionID = NilObjectID\<rparr>,
         \<lparr>ID = 2, UserID = 7, Status = Live, DefaultValue = ''b'', Rules = [],
          LastRevisionID = 1\<rparr>,
         \<lparr>ID = 3, UserID = 8, Status = Draft, DefaultValue = ''c'', Rules = [],
          LastRevisionID = NilObjectID\<rparr>],
      Environments = [\<lparr>Name = ''prod'', IsEnabled = True\<rparr>]\<rparr>"

text \<open>A new flag with one draft and no approval yet.\<close>

definition flag_single_draft :: FeatureFlagRecord where
  "flag_single_draft =
     \<lparr>FlagID = 12, OrganizationID = 20, Version = 1, FlagName = ''banner'',
      Revisions =
        [\<lparr>ID = 1, UserID = 7, Status = Draft, DefaultValue = ''on'', Rules = [],
          LastRevisionID = NilObjectID\<rparr>],
      Environments = [\<lparr>Name = ''prod'', IsEnabled = False\<rparr>]\<rparr>"

text \<open>A stored flag whose live revision links to a revision that is a draft.\<close>

definition flag_corrupt_link :: FeatureFlagRecord where
  "flag_corrupt_link =
     \<lparr>FlagID = 13, OrganizationID = 20, Version = 2, FlagName = ''cart'',
      Revisions =
        [\<lparr>ID = 1, UserID = 7, Status = Draft, DefaultValue = ''x'', Rules = [],
          LastRevisionID = NilObjectID\<rparr>,
         \<lparr>ID = 2, UserID = 7, Status = Live, DefaultValue = ''y'', Rules = [],
          LastRevisionID = 1\<rparr>],
      Environments = []\<rparr>"

section \<open>Properties of the loops\<close>

lemma approve_loop_length: "length (approve_loop t l rs) = length rs"
  by (induction rs arbitrary: l) (simp_all add: Let_def)

lemma approve_loop_ids: "map ID (approve_loop t l rs) = map ID rs"
  by (induction rs arbitrary: l) (simp_all add: Let_def)

lemma approve_loop_live_count:
  "live_count (approve_loop t l rs) = length (filter (\<lambda>r. ID r = t \<and> Status r = Draft) rs)"
  by (induction rs arbitrary: l) (simp_all add: Let_def live_count_def)

lemma distinct_ids_filter_le1:
  "distinct (map ID rs) \<Longrightarrow> length (filter (\<lambda>r. ID r = t \<and> P r) rs) \<le> 1"
proof (induction rs)
  case Nil
  then show ?case by simp
next
  case (Cons r rs)
  show ?case
  proof (cases "ID r = t")
    case True
    with Cons.prems have "\<forall>x\<in>set rs. ID x \<noteq> t" by (auto simp: image_iff)
    then have "filter (\<lambda>r. ID r = t \<and> P r) rs = []" by (simp add: filter_empty_conv)
    then show ?thesis by simp
  next
    case False
    with Cons show ?thesis by simp
  qed
qed

lemma rollback_live_loop_fst:
  "fst (rollback_live_loop n rs) =
     map (\<lambda>r. if Status r = Live then r\<lparr>Status := Draft, LastRevisionID := NilObjectID\<rparr> else r) rs"
  by (induction rs arbitrary: n) (simp_all add: case_prod_beta)

lemma rollback_restore_loop_map:
  "rollback_restore_loop n rs =
     map (\<lambda>r. if ID r = n \<and> Status r = Archived then r\<lparr>Status := Live\<rparr> else r) rs"
  by (induction rs) simp_all

lemma rollback_live_loop_ids: "map ID (fst (rollback_live_loop n rs)) = map ID rs"
  by (simp add: rollback_live_loop_fst)

lemma rollback_restore_loop_ids: "map ID (rollback_restore_loop n rs) = map ID rs"
  by (simp add: rollback_restore_loop_map)

lemma rollback_live_loop_no_live:
  "\<forall>r\<in>set (fst (rollback_live_loop n rs)). Status r \<noteq> Live"
  by (auto simp add: rollback_live_loop_fst)

lemma rollback_restore_loop_live_count:
  "\<forall>r\<in>set rs. Status r \<noteq> Live \<Longrightarrow>
   live_count (rollback_restore_loop n rs) =
     length (filter (\<lambda>r. ID r = n \<and> Status r = Archived) rs)"
  by (induction rs) (simp_all add: live_count_def)

lemma approve_distinct_ids: "distinct_ids (Revisions (approve t f)) = distinct_ids (Revisions f)"
  by (simp add: approve_def distinct_ids_def approve_loop_ids)

lemma rollback_distinct_ids: "distinct_ids (Revisions (rollback f)) = distinct_ids (Revisions f)"
  by (simp add: rollback_def distinct_ids_def rollback_restore_loop_ids rollback_live_loop_ids
      case_prod_beta)

lemma approve_live_count:
  "distinct_ids (Revisions f) \<Longrightarrow> live_count (Revisions (approve t f)) \<le> 1"
  using distinct_ids_filter_le1 [of "Revisions f" t "\<lambda>r. Status r = Draft"]
  by (simp add: approve_def distinct_ids_def approve_loop_live_count)

lemma rollback_live_count:
  assumes "distinct_ids (Revisions f)"
  shows "live_count (Revisions (rollback f)) \<le> 1"
proof -
  obtain rs n where eq: "rollback_live_loop NilObjectID (Revisions f) = (rs, n)"
    by (cases "rollback_live_loop NilObjectID (Revisions f)")
  have rs: "rs = fst (rollback_live_loop NilObjectID (Revisions f))" using eq by simp
  have nolive: "\<forall>r\<in>set rs. Status r \<noteq> Live"
    unfolding rs by (rule rollback_live_loop_no_live)
  have "distinct (map ID rs)"
    unfolding rs using assms by (simp add: rollback_live_loop_ids distinct_ids_def)
  then have "length (filter (\<lambda>r. ID r = n \<and> Status r = Archived) rs) \<le> 1"
    by (rule distinct_ids_filter_le1)
  then show ?thesis
    using nolive by (simp add: rollback_def eq rollback_restore_loop_live_count del: One_nat_def)
qed

section \<open>The single-live invariant\<close>

text \<open>
  Claim C1. For every flag whose revisions carry pairwise distinct identities and whose
  revision sequence contains at most one revision with status Live, after any finite
  sequence of Approve and Rollback operations the revision sequence still contains at
  most one revision with status Live.
\<close>

theorem at_most_one_live_preserved:
  assumes "distinct_ids (Revisions f)"
    and "live_count (Revisions f) \<le> 1"
  shows "live_count (Revisions (apply_ops ops f)) \<le> 1"
  using assms
proof (induction ops arbitrary: f)
  case Nil
  then show ?case by simp
next
  case (Cons operation ops)
  have "distinct_ids (Revisions (apply_op operation f))"
    using Cons.prems(1)
    by (cases operation) (simp_all add: approve_distinct_ids rollback_distinct_ids)
  moreover have "live_count (Revisions (apply_op operation f)) \<le> 1"
    using Cons.prems(1)
    by (cases operation) (simp_all add: approve_live_count rollback_live_count del: One_nat_def)
  ultimately show ?case using Cons.IH by simp
qed

theorem at_most_one_live_preserved_witness:
  "distinct_ids (Revisions flag_history) \<and> live_count (Revisions flag_history) \<le> 1 \<and>
   live_count (Revisions (apply_ops [Approve 3, Rollback, Approve 1, Rollback] flag_history)) \<le> 1"
  using at_most_one_live_preserved [of flag_history "[Approve 3, Rollback, Approve 1, Rollback]"]
  by (simp add: flag_history_def distinct_ids_def live_count_def)

section \<open>Approve\<close>

lemma approve_loop_no_draft_target:
  "\<forall>r\<in>set rs. ID r = t \<longrightarrow> Status r \<noteq> Draft \<Longrightarrow>
   approve_loop t l rs = map (\<lambda>r. if Status r = Live then r\<lparr>Status := Archived\<rparr> else r) rs"
  by (induction rs arbitrary: l) (auto simp add: Let_def)

lemma distinct_ids_same:
  "distinct (map ID rs) \<Longrightarrow> r \<in> set rs \<Longrightarrow> r' \<in> set rs \<Longrightarrow> ID r = ID r' \<Longrightarrow> r = r'"
  by (auto simp: distinct_map dest: inj_onD)

lemma filter_singleton_iff:
  assumes "filter P xs = [L]" and "x \<in> set xs"
  shows "P x \<longleftrightarrow> x = L"
proof -
  have "set (filter P xs) = {L}" by (simp add: assms(1))
  then show ?thesis using assms(2) by auto
qed

lemma filter_singleton_member:
  assumes "filter P xs = [L]"
  shows "L \<in> set xs \<and> P L"
proof -
  have "set (filter P xs) = {L}" by (simp add: assms)
  then show ?thesis by auto
qed

text \<open>
  Claim C2, as the handler has it. The handler has no InvalidStateTransition outcome:
  for every flag and every revision id that does not name an existing Draft revision
  (also when the named revision is already Live), with both store calls succeeding
  Approve returns the record normally. No revision is promoted: every revision that was
  Live is Archived, every other revision is as before, no \<open>LastRevisionID\<close> changes, and
  the version is incremented by 1 as in every Approve call.
\<close>

theorem approve_without_draft_target:
  assumes "\<forall>r\<in>set (Revisions f). ID r = revisionID \<longrightarrow> Status r \<noteq> Draft"
  shows "ApproveRevision False False revisionID f =
           Inr (f\<lparr>Revisions := map (\<lambda>r. if Status r = Live then r\<lparr>Status := Archived\<rparr> else r)
                                 (Revisions f),
                  Version := Version f + 1\<rparr>)"
  using assms by (simp add: ApproveRevision_def approve_def approve_loop_no_draft_target)

theorem approve_without_draft_target_witness:
  "map ID (Revisions flag_history) = [1, 2, 3] \<and>
   map Status (Revisions flag_history) = [Archived, Live, Draft] \<and>
   ApproveRevision False False 2 flag_history =
     Inr (flag_history
           \<lparr>Revisions := map (\<lambda>r. if Status r = Live then r\<lparr>Status := Archived\<rparr> else r)
                              (Revisions flag_history),
            Version := Version flag_history + 1\<rparr>)"
  using approve_without_draft_target [of flag_history 2]
  by (simp add: flag_history_def)

text \<open>
  Claim C2 as stated fails: revision 2 of \<open>flag_history\<close> is Live, and approving it
  returns a record (no error) that differs from the input: revision 2 is Archived and
  the version went from 3 to 4.
\<close>

theorem approve_live_target_counterexample:
  "Status (Revisions flag_history ! 1) = Live \<and> ID (Revisions flag_history ! 1) = 2 \<and>
   \<not> isl (ApproveRevision False False 2 flag_history) \<and>
   ApproveRevision False False 2 flag_history \<noteq> Inr flag_history \<and>
   map Status (Revisions (projr (ApproveRevision False False 2 flag_history)))
     = [Archived, Archived, Draft] \<and>
   Version (projr (ApproveRevision False False 2 flag_history)) = 4"
  by (simp add: ApproveRevision_def approve_def flag_history_def NilObjectID_def)

text \<open>
  Claim C3 at a flag where the Draft target precedes the Live revision in the sequence
  (revision 1 Draft, revision 2 Live): Approve of revision 1 reaches the target before
  the loop has seen the Live revision, so the target becomes Live with an absent
  \<open>LastRevisionID\<close> instead of the id 2 of the revision that was Live. A Rollback after
  it then restores nothing.
\<close>

theorem approve_draft_before_live_loses_backlink:
  "map ID (Revisions flag_draft_live) = [1, 2] \<and>
   map Status (Revisions flag_draft_live) = [Draft, Live] \<and>
   map Status (Revisions (approve 1 flag_draft_live)) = [Live, Archived] \<and>
   map LastRevisionID (Revisions (approve 1 flag_draft_live)) = [NilObjectID, NilObjectID] \<and>
   map Status (Revisions (rollback (approve 1 flag_draft_live))) = [Draft, Archived]"
  by (simp add: approve_def rollback_def flag_draft_live_def NilObjectID_def)

text \<open>
  Claim C10. For every flag (with pairwise distinct revision ids) whose unique Live
  revision is itself named as the Approve target, Approve sets that revision's status to
  Archived, not Live, and leaves every other revision as it was; the flag then has no
  Live revision, and the version is still incremented by 1.
\<close>

theorem approve_live_target_archives:
  assumes "distinct_ids (Revisions f)"
    and "filter (\<lambda>r. Status r = Live) (Revisions f) = [L]"
    and "ID L = revisionID"
  shows "Revisions (approve revisionID f) =
           map (\<lambda>r. if r = L then L\<lparr>Status := Archived\<rparr> else r) (Revisions f) \<and>
         live_count (Revisions (approve revisionID f)) = 0 \<and>
         Version (approve revisionID f) = Version f + 1"
proof -
  have L: "L \<in> set (Revisions f)" "Status L = Live"
    using filter_singleton_member [OF assms(2)] by simp_all
  have same: "\<And>r. r \<in> set (Revisions f) \<Longrightarrow> Status r = Live \<longleftrightarrow> r = L"
    using assms(2) by (rule filter_singleton_iff)
  have nodraft: "\<forall>r\<in>set (Revisions f). ID r = revisionID \<longrightarrow> Status r \<noteq> Draft"
  proof (intro ballI impI)
    fix r assume "r \<in> set (Revisions f)" "ID r = revisionID"
    then have "r = L"
      using assms(1,3) L(1) distinct_ids_same [of "Revisions f" r L]
      by (simp add: distinct_ids_def)
    then show "Status r \<noteq> Draft" using L(2) by simp
  qed
  have revs: "Revisions (approve revisionID f) =
      map (\<lambda>r. if Status r = Live then r\<lparr>Status := Archived\<rparr> else r) (Revisions f)"
    using nodraft by (simp add: approve_def approve_loop_no_draft_target)
  have "map (\<lambda>r. if Status r = Live then r\<lparr>Status := Archived\<rparr> else r) (Revisions f) =
        map (\<lambda>r. if r = L then L\<lparr>Status := Archived\<rparr> else r) (Revisions f)"
    by (rule map_cong) (auto simp: same)
  moreover have "live_count (Revisions (approve revisionID f)) = 0"
    unfolding revs by (simp add: live_count_def filter_empty_conv)
  ultimately show ?thesis using revs by (simp add: approve_def)
qed

theorem approve_live_target_archives_witness:
  "distinct_ids (Revisions flag_history) \<and>
   filter (\<lambda>r. Status r = Live) (Revisions flag_history) = [Revisions flag_history ! 1] \<and>
   ID (Revisions flag_history ! 1) = 2 \<and>
   map Status (Revisions (approve 2 flag_history)) = [Archived, Archived, Draft] \<and>
   live_count (Revisions (approve 2 flag_history)) = 0 \<and>
   Version (approve 2 flag_history) = 4"
  using approve_live_target_archives [of flag_history "Revisions flag_history ! 1" 2]
  by (simp add: flag_history_def distinct_ids_def live_count_def approve_def NilObjectID_def)

section \<open>Rollback\<close>

lemma rollback_live_loop_snd:
  "snd (rollback_live_loop n rs) =
     (if filter (\<lambda>r. Status r = Live) rs = [] then n
      else LastRevisionID (last (filter (\<lambda>r. Status r = Live) rs)))"
  by (induction rs arbitrary: n) (simp_all add: case_prod_beta)

lemma rollback_eq:
  "rollback f =
     f\<lparr>Revisions := rollback_restore_loop (snd (rollback_live_loop NilObjectID (Revisions f)))
                      (fst (rollback_live_loop NilObjectID (Revisions f))),
       Version := Version f - 1\<rparr>"
  by (simp add: rollback_def case_prod_beta)

text \<open>
  Claim C4, as the handler has it. The handler has no NoActiveRevision outcome: for
  every flag in which no revision has status Live (and no Archived revision carries the
  nil id, which the unassigned \<open>newRevisionID\<close> would match), Rollback with both store
  calls succeeding returns the record normally, with every revision unchanged and the
  version decremented by 1.
\<close>

theorem rollback_without_live:
  assumes "\<forall>r\<in>set (Revisions f). Status r \<noteq> Live"
    and "\<forall>r\<in>set (Revisions f). ID r = NilObjectID \<longrightarrow> Status r \<noteq> Archived"
  shows "RollbackFeatureFlagVersion False False f = Inr (f\<lparr>Version := Version f - 1\<rparr>)"
proof -
  have nolive: "filter (\<lambda>r. Status r = Live) (Revisions f) = []"
    using assms(1) by (simp add: filter_empty_conv)
  have first: "fst (rollback_live_loop NilObjectID (Revisions f)) = Revisions f"
    unfolding rollback_live_loop_fst using assms(1) by (simp add: map_idI)
  have target: "snd (rollback_live_loop NilObjectID (Revisions f)) = NilObjectID"
    by (simp add: rollback_live_loop_snd nolive)
  have "rollback_restore_loop NilObjectID (Revisions f) = Revisions f"
    unfolding rollback_restore_loop_map using assms(2) by (simp add: map_idI)
  then have "rollback f = f\<lparr>Version := Version f - 1\<rparr>"
    by (simp add: rollback_eq first target)
  then show ?thesis by (simp add: RollbackFeatureFlagVersion_def)
qed

theorem rollback_without_live_witness:
  "map Status (Revisions flag_single_draft) = [Draft] \<and>
   RollbackFeatureFlagVersion False False flag_single_draft =
     Inr (flag_single_draft\<lparr>Version := 0\<rparr>)"
  using rollback_without_live [of flag_single_draft]
  by (simp add: flag_single_draft_def)

text \<open>
  Claim C4 as stated fails: \<open>flag_single_draft\<close> has no Live revision, and Rollback
  returns a record (no error) whose version went from 1 to 0.
\<close>

theorem rollback_without_live_counterexample:
  "map Status (Revisions flag_single_draft) = [Draft] \<and>
   \<not> isl (RollbackFeatureFlagVersion False False flag_single_draft) \<and>
   Version flag_single_draft = 1 \<and>
   Version (projr (RollbackFeatureFlagVersion False False flag_single_draft)) = 0"
  by (simp add: RollbackFeatureFlagVersion_def rollback_def flag_single_draft_def)

text \<open>
  Claim C5, as the handler has it. The handler has no InvalidStateTransition outcome:
  for every flag whose unique Live revision carries a non-absent \<open>LastRevisionID\<close> that
  names no Archived revision, Rollback with both store calls succeeding returns the
  record normally: the Live revision is a Draft with its \<open>LastRevisionID\<close> cleared,
  every other revision is unchanged (so no revision is Live), and the version is
  decremented by 1.
\<close>

theorem rollback_corrupt_link:
  assumes "filter (\<lambda>r. Status r = Live) (Revisions f) = [L]"
    and "LastRevisionID L \<noteq> NilObjectID"
    and "\<forall>r\<in>set (Revisions f). ID r = LastRevisionID L \<longrightarrow> Status r \<noteq> Archived"
  shows "RollbackFeatureFlagVersion False False f =
           Inr (f\<lparr>Revisions :=
                    map (\<lambda>r. if r = L then L\<lparr>Status := Draft, LastRevisionID := NilObjectID\<rparr>
                              else r) (Revisions f),
                  Version := Version f - 1\<rparr>)"
proof -
  let ?demote = "\<lambda>r. if Status r = Live then r\<lparr>Status := Draft, LastRevisionID := NilObjectID\<rparr> else r"
  have same: "\<And>r. r \<in> set (Revisions f) \<Longrightarrow> Status r = Live \<longleftrightarrow> r = L"
    using assms(1) by (rule filter_singleton_iff)
  have target: "snd (rollback_live_loop NilObjectID (Revisions f)) = LastRevisionID L"
    by (simp add: rollback_live_loop_snd assms(1))
  have first: "fst (rollback_live_loop NilObjectID (Revisions f)) = map ?demote (Revisions f)"
    by (rule rollback_live_loop_fst)
  have "\<forall>r\<in>set (map ?demote (Revisions f)). ID r = LastRevisionID L \<longrightarrow> Status r \<noteq> Archived"
    using assms(3) by auto
  then have restore: "rollback_restore_loop (LastRevisionID L) (map ?demote (Revisions f))
               = map ?demote (Revisions f)"
    unfolding rollback_restore_loop_map by (intro map_idI) auto
  have demote: "map ?demote (Revisions f) =
      map (\<lambda>r. if r = L then L\<lparr>Status := Draft, LastRevisionID := NilObjectID\<rparr> else r) (Revisions f)"
    by (rule map_cong) (auto simp: same)
  have "rollback f = f\<lparr>Revisions := map ?demote (Revisions f), Version := Version f - 1\<rparr>"
    by (simp only: rollback_eq first target restore)
  then have "rollback f =
      f\<lparr>Revisions := map (\<lambda>r. if r = L then L\<lparr>Status := Draft, LastRevisionID := NilObjectID\<rparr> else r)
                        (Revisions f),
        Version := Version f - 1\<rparr>"
    by (simp only: demote)
  then show ?thesis by (simp add: RollbackFeatureFlagVersion_def)
qed

theorem rollback_corrupt_link_witness:
  "map Status (Revisions flag_corrupt_link) = [Draft, Live] \<and>
   map LastRevisionID (Revisions flag_corrupt_link) = [NilObjectID, 1] \<and>
   map ID (Revisions flag_corrupt_link) = [1, 2] \<and>
   RollbackFeatureFlagVersion False False flag_corrupt_link =
     Inr (flag_corrupt_link
           \<lparr>Revisions := [Revisions flag_corrupt_link ! 0,
                           (Revisions flag_corrupt_link ! 1)\<lparr>Status := Draft, LastRevisionID := NilObjectID\<rparr>],
            Version := 1\<rparr>)"
  using rollback_corrupt_link [of flag_corrupt_link "Revisions flag_corrupt_link ! 1"]
  by (simp add: flag_corrupt_link_def NilObjectID_def)

text \<open>
  Claim C5 as stated fails: the Live revision 2 of \<open>flag_corrupt_link\<close> links to
  revision 1, which is a Draft, and Rollback returns a record (no error) in which both
  revisions are Drafts.
\<close>

theorem rollback_corrupt_link_counterexample:
  "map Status (Revisions flag_corrupt_link) = [Draft, Live] \<and>
   map LastRevisionID (Revisions flag_corrupt_link) = [NilObjectID, 1] \<and>
   map ID (Revisions flag_corrupt_link) = [1, 2] \<and>
   \<not> isl (RollbackFeatureFlagVersion False False flag_corrupt_link) \<and>
   map Status (Revisions (projr (RollbackFeatureFlagVersion False False flag_corrupt_link)))
     = [Draft, Draft]"
  by (simp add: RollbackFeatureFlagVersion_def rollback_def flag_corrupt_link_def NilObjectID_def)

section \<open>Approve followed by Rollback\<close>

lemma approve_loop_append_no_live:
  "\<forall>r\<in>set xs. Status r \<noteq> Live \<Longrightarrow>
   approve_loop t l (xs @ ys) = approve_loop t l xs @ approve_loop t l ys"
  by (induction xs arbitrary: l) (simp_all add: Let_def)

lemma approve_loop_untouched:
  "\<forall>r\<in>set xs. Status r \<noteq> Live \<and> ID r \<noteq> t \<Longrightarrow> approve_loop t l xs = xs"
  by (induction xs arbitrary: l) (simp_all add: Let_def)

text \<open>
  Claim C6, as the handlers have it. For every flag with pairwise distinct revision ids,
  exactly one Live revision \<open>A\<close> and version \<open>v\<close>, and every Draft revision \<open>B\<close> that
  follows \<open>A\<close> in the revision sequence, Approve of \<open>B\<close> followed by Rollback yields
  the flag it started from, except that \<open>B\<close>'s \<open>LastRevisionID\<close> is absent: \<open>A\<close> is Live
  with its own \<open>LastRevisionID\<close> as before, \<open>B\<close> is a Draft, every other revision and the
  version \<open>v\<close> are unchanged.
\<close>

theorem approve_then_rollback:
  assumes dist: "distinct_ids (Revisions f)"
    and revs: "Revisions f = pre @ A # mid @ B # post"
    and A: "Status A = Live"
    and B: "Status B = Draft"
    and others: "\<forall>r\<in>set (pre @ mid @ post). Status r \<noteq> Live"
  shows "rollback (approve (ID B) f) =
           f\<lparr>Revisions := pre @ A # mid @ B\<lparr>LastRevisionID := NilObjectID\<rparr> # post\<rparr>"
proof -
  let ?A' = "A\<lparr>Status := Archived\<rparr>"
  let ?B' = "B\<lparr>Status := Live, LastRevisionID := ID A\<rparr>"
  let ?B'' = "B\<lparr>LastRevisionID := NilObjectID\<rparr>"
  let ?demote = "\<lambda>r. if Status r = Live then r\<lparr>Status := Draft, LastRevisionID := NilObjectID\<rparr> else r"
  have d: "distinct (map ID (pre @ A # mid @ B # post))"
    using dist revs by (simp add: distinct_ids_def)
  have pre: "\<forall>r\<in>set pre. Status r \<noteq> Live \<and> ID r \<noteq> ID B \<and> ID r \<noteq> ID A"
    using d others by (auto simp: image_iff)
  have mid: "\<forall>r\<in>set mid. Status r \<noteq> Live \<and> ID r \<noteq> ID B \<and> ID r \<noteq> ID A"
    using d others by (auto simp: image_iff)
  have post: "\<forall>r\<in>set post. Status r \<noteq> Live \<and> ID r \<noteq> ID B \<and> ID r \<noteq> ID A"
    using d others by (auto simp: image_iff)
  have AB: "ID A \<noteq> ID B"
    using d by auto
  have tail: "approve_loop (ID B) (ID A) (mid @ B # post) = mid @ ?B' # post"
    using mid post B by (simp add: approve_loop_append_no_live approve_loop_untouched Let_def)
  have approved: "approve_loop (ID B) NilObjectID (pre @ A # mid @ B # post)
                    = pre @ ?A' # mid @ ?B' # post"
    using pre A AB tail by (simp add: approve_loop_append_no_live approve_loop_untouched Let_def)
  have live: "filter (\<lambda>r. Status r = Live) (pre @ ?A' # mid @ ?B' # post) = [?B']"
    using pre mid post by (simp add: filter_empty_conv)
  have target: "snd (rollback_live_loop NilObjectID (pre @ ?A' # mid @ ?B' # post)) = ID A"
    by (simp only: rollback_live_loop_snd live) simp
  have demoted: "fst (rollback_live_loop NilObjectID (pre @ ?A' # mid @ ?B' # post))
                   = pre @ ?A' # mid @ B\<lparr>Status := Draft, LastRevisionID := NilObjectID\<rparr> # post"
    unfolding rollback_live_loop_fst using pre mid post by (simp add: map_idI)
  have B'': "B\<lparr>Status := Draft, LastRevisionID := NilObjectID\<rparr> = ?B''"
    using B by (cases B) simp
  have A'': "?A'\<lparr>Status := Live\<rparr> = A"
    using A by (cases A) simp
  have restored: "rollback_restore_loop (ID A) (pre @ ?A' # mid @ ?B'' # post)
                    = pre @ A # mid @ ?B'' # post"
    unfolding rollback_restore_loop_map using pre mid post AB A''
    by (simp add: map_idI)
  have "Revisions (rollback (approve (ID B) f)) = pre @ A # mid @ ?B'' # post"
    by (simp add: rollback_eq approve_def revs approved target demoted B'' restored)
  then show ?thesis
    by (simp add: rollback_eq approve_def)
qed

theorem approve_then_rollback_witness:
  "rollback (approve 3 flag_history) = flag_history"
  using approve_then_rollback [of flag_history "[Revisions flag_history ! 0]"
      "Revisions flag_history ! 1" "[]" "Revisions flag_history ! 2" "[]"]
  by (simp add: flag_history_def distinct_ids_def NilObjectID_def)

text \<open>
  Claim C6 as stated fails. In \<open>flag_history\<close> the Live revision 2 precedes the Draft
  revision 3: the round trip restores statuses and version, and the link it clears is
  that of revision 3, while the \<open>LastRevisionID\<close> of the Live revision 2 is still 1.
  In \<open>flag_draft_live\<close> the Draft revision 1 precedes the Live revision 2: after the
  round trip revision 2 is Archived, not Live.
\<close>

theorem approve_then_rollback_counterexample:
  "map Status (Revisions flag_history) = [Archived, Live, Draft] \<and>
   map ID (Revisions flag_history) = [1, 2, 3] \<and>
   map Status (Revisions (rollback (approve 3 flag_history))) = [Archived, Live, Draft] \<and>
   Version (rollback (approve 3 flag_history)) = Version flag_history \<and>
   LastRevisionID (Revisions (rollback (approve 3 flag_history)) ! 1) = 1 \<and>
   LastRevisionID (Revisions (rollback (approve 3 flag_history)) ! 1) \<noteq> NilObjectID \<and>
   map Status (Revisions flag_draft_live) = [Draft, Live] \<and>
   map ID (Revisions flag_draft_live) = [1, 2] \<and>
   map Status (Revisions (rollback (approve 1 flag_draft_live))) = [Draft, Archived]"
  by (simp add: rollback_def approve_def flag_history_def flag_draft_live_def NilObjectID_def)

section \<open>The version counter\<close>

lemma sint_dec: "sint (w :: 64 word) \<noteq> - (2 ^ 63) \<Longrightarrow> sint (w - 1) = sint w - 1"
proof -
  assume a: "sint w \<noteq> - (2 ^ 63)"
  have r: "- (2 ^ 63) \<le> sint w" "sint w < 2 ^ 63"
    using sint_ge [of w] sint_lt [of w] by simp_all
  have "sint (w - 1) = signed_take_bit 63 (sint w - 1)"
    by (simp add: sint_word_ariths)
  also have "\<dots> = sint w - 1"
    using a r by (intro signed_take_bit_int_eq_self) simp_all
  finally show ?thesis .
qed

lemma rollback_version: "Version (rollback f) = Version f - 1"
  by (simp add: rollback_def case_prod_beta)

lemma rollback_replicate_version:
  "- (2 ^ 63) \<le> sint (Version f) - int n \<Longrightarrow>
   sint (Version (apply_ops (replicate n Rollback) f)) = sint (Version f) - int n"
proof (induction n arbitrary: f)
  case 0
  then show ?case by simp
next
  case (Suc n)
  have "sint (Version f) \<noteq> - (2 ^ 63)" using Suc.prems sint_ge[of "Version f"] by simp
  then have step: "sint (Version (rollback f)) = sint (Version f) - 1"
    by (simp add: rollback_version sint_dec)
  have "sint (Version (apply_ops (replicate n Rollback) (rollback f))) = sint (Version (rollback f)) - int n"
    using Suc.prems step by (intro Suc.IH) simp
  then show ?case using step by simp
qed

text \<open>
  Claim C7. Every successful Rollback decrements the version by exactly 1: the handler
  computes \<open>Version - 1\<close> on the machine integer, which as a signed value is one less
  for every version above the least representable one. The counter is not clamped
  below: \<open>n\<close> rollbacks in a row take a version \<open>v\<close> to \<open>v - n\<close>, through the initial
  value, zero and the negative numbers.
\<close>

theorem rollback_version_unclamped:
  "(RollbackFeatureFlagVersion updateErr timelineErr f = Inr f' \<longrightarrow>
      Version f' = Version f - 1 \<and>
      (sint (Version f) \<noteq> - (2 ^ 63) \<longrightarrow> sint (Version f') = sint (Version f) - 1)) \<and>
   (- (2 ^ 63) \<le> sint (Version f) - int n \<longrightarrow>
      sint (Version (apply_ops (replicate n Rollback) f)) = sint (Version f) - int n)"
proof (intro conjI impI)
  assume "RollbackFeatureFlagVersion updateErr timelineErr f = Inr f'"
  then have f': "f' = rollback f"
    by (auto simp: RollbackFeatureFlagVersion_def split: if_splits)
  show "Version f' = Version f - 1"
    by (simp add: f' rollback_version)
  assume "sint (Version f) \<noteq> - (2 ^ 63)"
  then show "sint (Version f') = sint (Version f) - 1"
    by (simp add: f' rollback_version sint_dec)
next
  assume "- (2 ^ 63) \<le> sint (Version f) - int n"
  then show "sint (Version (apply_ops (replicate n Rollback) f)) = sint (Version f) - int n"
    by (rule rollback_replicate_version)
qed

theorem rollback_version_unclamped_witness:
  "Version flag_single_draft = 1 \<and>
   RollbackFeatureFlagVersion False False flag_single_draft = Inr (flag_single_draft\<lparr>Version := 0\<rparr>) \<and>
   sint (Version (apply_ops (replicate 3 Rollback) flag_single_draft)) = - 2"
  using rollback_version_unclamped [of False False flag_single_draft "flag_single_draft\<lparr>Version := 0\<rparr>" 3]
  by (simp add: RollbackFeatureFlagVersion_def rollback_def flag_single_draft_def)

section \<open>Toggle\<close>

lemma toggle_loop_length: "length (toggle_loop n es) = length es"
  by (induction es) simp_all

lemma toggle_loop_nth:
  "i < length es \<Longrightarrow>
   toggle_loop n es ! i =
     (if Name (es ! i) = n then (es ! i)\<lparr>IsEnabled := \<not> IsEnabled (es ! i)\<rparr> else es ! i)"
proof (induction es arbitrary: i)
  case Nil
  then show ?case by simp
next
  case (Cons e es)
  then show ?case by (cases i) simp_all
qed

lemma toggle_loop_unknown: "\<forall>e\<in>set es. Name e \<noteq> n \<Longrightarrow> toggle_loop n es = es"
  by (induction es) simp_all

text \<open>
  Claim C8. For every flag and environment name, Toggle (its store calls succeeding)
  returns the flag in which each environment with exactly that name has \<open>IsEnabled\<close>
  flipped and every other environment is unchanged; if no environment has that name, it
  returns the flag unchanged and raises no error.
\<close>

theorem toggle_flips_named_environment:
  "ToggleFeatureFlag False False environmentName f = Inr (toggle environmentName f) \<and>
   length (Environments (toggle environmentName f)) = length (Environments f) \<and>
   (\<forall>i < length (Environments f).
      Environments (toggle environmentName f) ! i =
        (if Name (Environments f ! i) = environmentName
         then (Environments f ! i)\<lparr>IsEnabled := \<not> IsEnabled (Environments f ! i)\<rparr>
         else Environments f ! i)) \<and>
   ((\<forall>e\<in>set (Environments f). Name e \<noteq> environmentName) \<longrightarrow>
      ToggleFeatureFlag False False environmentName f = Inr f)"
  by (simp add: ToggleFeatureFlag_def toggle_def toggle_loop_length toggle_loop_nth
      toggle_loop_unknown)

theorem toggle_flips_named_environment_witness:
  "Environments flag_draft_live =
     [\<lparr>Name = ''prod'', IsEnabled = False\<rparr>, \<lparr>Name = ''staging'', IsEnabled = True\<rparr>] \<and>
   Environments (toggle ''prod'' flag_draft_live) ! 0 = \<lparr>Name = ''prod'', IsEnabled = True\<rparr> \<and>
   Environments (toggle ''prod'' flag_draft_live) ! 1 = \<lparr>Name = ''staging'', IsEnabled = True\<rparr> \<and>
   ToggleFeatureFlag False False ''Prod'' flag_draft_live = Inr flag_draft_live"
  using toggle_flips_named_environment [of "''prod''" flag_draft_live]
    toggle_flips_named_environment [of "''Prod''" flag_draft_live]
  by (simp add: flag_draft_live_def ToggleFeatureFlag_def toggle_def)

text \<open>
  Claim C9. For every flag and every environment name, the record Toggle returns has the
  revision sequence and the version counter of the flag it was given.
\<close>

theorem toggle_frame:
  "ToggleFeatureFlag updateErr timelineErr environmentName f = Inr f' \<Longrightarrow>
   Revisions f' = Revisions f \<and> Version f' = Version f"
  by (auto simp: ToggleFeatureFlag_def toggle_def split: if_splits)

theorem toggle_frame_witness:
  "ToggleFeatureFlag False False ''prod'' flag_history =
     Inr (flag_history\<lparr>Environments := [\<lparr>Name = ''prod'', IsEnabled = False\<rparr>]\<rparr>) \<and>
   Revisions (flag_history\<lparr>Environments := [\<lparr>Name = ''prod'', IsEnabled = False\<rparr>]\<rparr>)
     = Revisions flag_history \<and>
   Version (flag_history\<lparr>Environments := [\<lparr>Name = ''prod'', IsEnabled = False\<rparr>]\<rparr>)
     = Version flag_history"
proof -
  have h: "ToggleFeatureFlag False False ''prod'' flag_history =
     Inr (flag_history\<lparr>Environments := [\<lparr>Name = ''prod'', IsEnabled = False\<rparr>]\<rparr>)"
    by (simp add: ToggleFeatureFlag_def toggle_def flag_history_def)
  show ?thesis using h toggle_frame [OF h] by simp
qed

end
